theory Spec2Isabelle
  imports Main "HOL-Library.AList" "HOL-Library.Product_Lexorder"
begin

section \<open>The Zappa WSGI middleware (zappa/middleware.py)\<close>

text \<open>
  The middleware is Python 2 code (it uses \<open>basestring\<close>, \<open>unicode\<close> and an eager
  \<open>map\<close>). Strings are modelled as byte strings (\<open>string\<close>, a list of 8-bit
  characters): a text is its UTF-8 encoding, so \<open>.encode('utf-8')\<close> is the identity and
  the difference between \<open>str\<close> and \<open>unicode\<close> is not modelled. A dict is an
  association list in the dict's iteration order, which Python 2 leaves unspecified; a real
  dict has distinct keys.
\<close>

subsection \<open>Values and errors\<close>

datatype error = ValueError | IndexError | KeyError | AttributeError | TypeError

text \<open>
  The Python values that can sit in \<open>request_cookies\<close>: what \<open>json.loads\<close> returns
  (a float is kept as its lexeme) and the strings merged from the headers. Only
  \<open>PStr\<close> is an instance of \<open>basestring\<close>.
\<close>

datatype pyval =
    PNone
  | PBool bool
  | PInt int
  | PFloat string
  | PStr string
  | PList "pyval list"
  | PDict "(string \<times> pyval) list"

type_synonym jar = "(string \<times> pyval) list"

type_synonym header = "string \<times> string"

fun is_basestring :: "pyval \<Rightarrow> bool" where
  "is_basestring (PStr s) = True"
| "is_basestring v = False"

subsection \<open>Python string operations used by the middleware\<close>

text \<open>\<open>s.split(c)\<close> for a one-character separator: one more piece than separators.\<close>

fun split :: "char \<Rightarrow> string \<Rightarrow> string list" where
  "split c [] = [[]]"
| "split c (x # xs) =
     (if x = c then [] # split c xs
      else (case split c xs of p # ps \<Rightarrow> (x # p) # ps | [] \<Rightarrow> [[x]]))"

text \<open>\<open>s.split(c, 1)\<close>: cut at the first separator only.\<close>

fun split1 :: "char \<Rightarrow> string \<Rightarrow> string list" where
  "split1 c [] = [[]]"
| "split1 c (x # xs) =
     (if x = c then [[], xs]
      else (case split1 c xs of p # ps \<Rightarrow> (x # p) # ps | [] \<Rightarrow> [[x]]))"

text \<open>\<open>s.count(c)\<close> for a one-character argument.\<close>

definition count :: "char \<Rightarrow> string \<Rightarrow> nat" where
  "count c s = length (filter (\<lambda>x. x = c) s)"

text \<open>The bytes \<open>str.strip()\<close> removes: tab, line feed, vertical tab, form feed,
  carriage return and space.\<close>

definition is_space :: "char \<Rightarrow> bool" where
  "is_space c = (c \<in> set [CHR 0x09, CHR 0x0A, CHR 0x0B, CHR 0x0C, CHR 0x0D, CHR '' ''])"

definition strip :: "string \<Rightarrow> string" where
  "strip s = rev (dropWhile is_space (rev (dropWhile is_space s)))"

text \<open>\<open>str.lower()\<close> on a byte string: the letters A to Z only.\<close>

definition lower_char :: "char \<Rightarrow> char" where
  "lower_char c =
     (case map_of (zip ''ABCDEFGHIJKLMNOPQRSTUVWXYZ'' ''abcdefghijklmnopqrstuvwxyz'') c of
        Some l \<Rightarrow> l
      | None \<Rightarrow> c)"

definition lower :: "string \<Rightarrow> string" where
  "lower s = map lower_char s"

fun startswith :: "string \<Rightarrow> string \<Rightarrow> bool" where
  "startswith s [] = True"
| "startswith [] (p # ps) = False"
| "startswith (x # xs) (p # ps) = (x = p \<and> startswith xs ps)"

text \<open>\<open>p in s\<close>: \<open>p\<close> occurs in \<open>s\<close> as a substring.\<close>

fun contains :: "string \<Rightarrow> string \<Rightarrow> bool" where
  "contains [] p = startswith [] p"
| "contains (x # xs) p = (startswith (x # xs) p \<or> contains xs p)"

text \<open>\<open>sep.join(pieces)\<close>.\<close>

fun join :: "string \<Rightarrow> string list \<Rightarrow> string" where
  "join sep [] = []"
| "join sep [p] = p"
| "join sep (p # q # ps) = p @ sep @ join sep (q # ps)"

subsection \<open>The dict operations\<close>

definition keys :: "jar \<Rightarrow> string list" where
  "keys d = map fst d"

text \<open>\<open>d.update({k: v})\<close>: overwrite the value of \<open>k\<close>, or add the key.\<close>

definition dict_update :: "string \<times> pyval \<Rightarrow> jar \<Rightarrow> jar" where
  "dict_update kv d = AList.update (fst kv) (snd kv) d"

text \<open>\<open>del d[k]\<close>: the key must be there.\<close>

definition dict_del :: "string \<Rightarrow> jar \<Rightarrow> error + jar" where
  "dict_del k d = (if k \<in> set (keys d) then Inr (AList.delete k d) else Inl KeyError)"

text \<open>\<open>d.pop(k, None)\<close>, its result dropped: remove the key when it is there.\<close>

definition dict_pop :: "string \<Rightarrow> jar \<Rightarrow> jar" where
  "dict_pop k d = AList.delete k d"

text \<open>Reading \<open>v.items\<close> or \<open>v.update\<close> of a value that is not a dict raises.\<close>

fun as_dict :: "pyval \<Rightarrow> error + jar" where
  "as_dict (PDict d) = Inr d"
| "as_dict v = Inl AttributeError"

subsection \<open>The middleware object\<close>

text \<open>
  The attributes of \<open>ZappaWSGIMiddleware\<close> with their class-level defaults. The
  response-starter is a callable of the server, with a result of some type \<open>'w\<close>.
\<close>

record ('x, 'w) middleware =
  decoded_zappa :: "string option"
  request_cookies :: pyval
  start_response :: "(string \<Rightarrow> header list \<Rightarrow> 'x \<Rightarrow> 'w) option"
  redirect_content :: "string option"

definition init :: "('x, 'w) middleware" where
  "init = \<lparr> decoded_zappa = None, request_cookies = PDict [],
            start_response = None, redirect_content = None \<rparr>"

subsection \<open>encode\_response\<close>

text \<open>Line 88: the headers that are not \<open>Set-Cookie\<close>, in order.\<close>

definition new_headers :: "header list \<Rightarrow> header list" where
  "new_headers headers = filter (\<lambda>h. fst h \<noteq> ''Set-Cookie'') headers"

text \<open>
  Lines 91 to 96: one singleton dict per \<open>Set-Cookie\<close> header, the stripped text before
  the first \<open>=\<close> mapped to the text after it. A header value with no \<open>=\<close> raises
  IndexError at \<open>[1]\<close>.
\<close>

definition cookie_dict :: "string \<Rightarrow> error + string \<times> pyval" where
  "cookie_dict v =
     (case split1 CHR ''='' v of
        n # r # _ \<Rightarrow> Inr (strip n, PStr r)
      | _ \<Rightarrow> Inl IndexError)"

fun cookie_dicts :: "header list \<Rightarrow> error + (string \<times> pyval) list" where
  "cookie_dicts [] = Inr []"
| "cookie_dicts (h # hs) =
     (if fst h = ''Set-Cookie'' then
        (case cookie_dict (snd h) of
           Inl e \<Rightarrow> Inl e
         | Inr kv \<Rightarrow> (case cookie_dicts hs of Inl e \<Rightarrow> Inl e | Inr kvs \<Rightarrow> Inr (kv # kvs)))
      else cookie_dicts hs)"

text \<open>Line 100: \<open>map(self.request_cookies.update, cookie_dicts)\<close>, eager in Python 2.\<close>

definition update_all :: "(string \<times> pyval) list \<Rightarrow> jar \<Rightarrow> jar" where
  "update_all kvs d = fold dict_update kvs d"

text \<open>
  The method returns what the response-starter returns, called with the status, the
  pass-through headers and \<open>exc_info\<close>. An exception leaves the object as it is at
  that moment.
\<close>

definition encode_response ::
  "string \<Rightarrow> header list \<Rightarrow> 'x \<Rightarrow> ('x, 'w) middleware \<Rightarrow> (error + 'w) \<times> ('x, 'w) middleware" where
  "encode_response status headers exc_info self =
     (case cookie_dicts headers of
        Inl e \<Rightarrow> (Inl e, self)
      | Inr kvs \<Rightarrow>
          (case as_dict (request_cookies self) of
             Inl e \<Rightarrow> (Inl e, self)
           | Inr d \<Rightarrow>
               (let self' = self\<lparr>request_cookies := PDict (update_all kvs d)\<rparr>
                in case start_response self' of
                     None \<Rightarrow> (Inl TypeError, self')
                   | Some sr \<Rightarrow> (Inr (sr status (new_headers headers) exc_info), self'))))"

subsection \<open>decode\_zappa\_cookie\<close>

text \<open>
  \<open>base58.b58decode\<close> and \<open>json.loads\<close> belong to libraries outside the repository
  and are parameters; each returns its value or raises. The two assignments happen in
  order, so a failure of \<open>json.loads\<close> leaves \<open>decoded_zappa\<close> already set.
\<close>

definition decode_zappa_cookie ::
  "(string \<Rightarrow> error + string) \<Rightarrow> (string \<Rightarrow> error + pyval) \<Rightarrow> string \<Rightarrow>
   ('x, 'w) middleware \<Rightarrow> (error + unit) \<times> ('x, 'w) middleware" where
  "decode_zappa_cookie b58decode json_loads encoded_zappa self =
     (case b58decode encoded_zappa of
        Inl e \<Rightarrow> (Inl e, self)
      | Inr decoded \<Rightarrow>
          (let self' = self\<lparr>decoded_zappa := Some decoded\<rparr>
           in case json_loads decoded of
                Inl e \<Rightarrow> (Inl e, self')
              | Inr v \<Rightarrow> (Inr (), self'\<lparr>request_cookies := v\<rparr>)))"

subsection \<open>iter\_cookies\_expires and filter\_expired\_cookies\<close>

text \<open>
  A \<open>time.struct_time\<close> is the tuple (year, month, day, hour, minute, second, weekday,
  day of the year, dst flag), and Python 2 compares two of them as tuples, from the left.
  \<open>time.strptime\<close> is a parameter: given the text and the format it returns the
  \<open>struct_time\<close>, or \<open>None\<close> where the library raises ValueError.
\<close>

type_synonym struct_time = "int \<times> int \<times> int \<times> int \<times> int \<times> int \<times> int \<times> int \<times> int"

type_synonym strptime = "string \<Rightarrow> string \<Rightarrow> struct_time option"

definition format_Y :: string where
  "format_Y = ''%a, %d-%b-%Y %H:%M:%S GMT''"

definition format_y :: string where
  "format_y = ''%a, %d-%b-%y %H:%M:%S GMT''"

text \<open>\<open>kvp.split('=')[1]\<close>: IndexError when the piece holds no \<open>=\<close>.\<close>

definition expires_text :: "string \<Rightarrow> error + string" where
  "expires_text kvp =
     (case split CHR ''='' kvp of
        _ # d # _ \<Rightarrow> Inr d
      | _ \<Rightarrow> Inl IndexError)"

text \<open>
  Lines 139 to 142: the four-digit year first; its ValueError is caught and the two-digit
  year is tried, outside any handler.
\<close>

definition parse_expires :: "strptime \<Rightarrow> string \<Rightarrow> error + struct_time" where
  "parse_expires strptime kvp =
     (case expires_text kvp of
        Inl e \<Rightarrow> Inl e
      | Inr d \<Rightarrow>
          (case strptime d format_Y of
             Some exp \<Rightarrow> Inr exp
           | None \<Rightarrow>
               (case strptime d format_y of
                  Some exp \<Rightarrow> Inr exp
                | None \<Rightarrow> Inl ValueError)))"

text \<open>
  Lines 136 to 144, the loop over the pieces between semicolons: the first stripped piece
  whose lower-case form contains \<open>expires\<close> decides (\<open>break\<close>).
\<close>

fun scan_kvps :: "strptime \<Rightarrow> string list \<Rightarrow> error + struct_time option" where
  "scan_kvps strptime [] = Inr None"
| "scan_kvps strptime (kvp # kvps) =
     (let k = strip kvp
      in if contains (lower k) ''expires'' then
           (case parse_expires strptime k of
              Inl e \<Rightarrow> Inl e
            | Inr exp \<Rightarrow> Inr (Some exp))
         else scan_kvps strptime kvps)"

text \<open>
  Lines 129 to 135, one entry of the jar: \<open>Inr None\<close> when the loop moves on without a
  yield, \<open>Inr (Some exp)\<close> when it yields, \<open>Inl e\<close> when it raises.
\<close>

fun cookie_expires :: "strptime \<Rightarrow> string \<Rightarrow> pyval \<Rightarrow> error + struct_time option" where
  "cookie_expires strptime name (PStr v) =
     (let cookie = name @ ''='' @ v
      in if count CHR ''='' cookie = 1 then Inr None
         else scan_kvps strptime (split CHR '';'' cookie))"
| "cookie_expires strptime name value = Inr None"

text \<open>
  The generator, over the list \<open>self.request_cookies.items()\<close> (in Python 2 a copy, so
  deleting from the dict does not disturb it): the pairs it yields, and the exception
  that ends it, if any. The generator reads nothing that its consumer changes, so running
  it ahead of the consumer yields the same pairs.
\<close>

fun iter_items :: "strptime \<Rightarrow> jar \<Rightarrow> (string \<times> struct_time) list \<times> error option" where
  "iter_items strptime [] = ([], None)"
| "iter_items strptime ((name, value) # items) =
     (case cookie_expires strptime name value of
        Inl e \<Rightarrow> ([], Some e)
      | Inr None \<Rightarrow> iter_items strptime items
      | Inr (Some exp) \<Rightarrow>
          (case iter_items strptime items of (ys, err) \<Rightarrow> ((name, exp) # ys, err)))"

definition iter_cookies_expires ::
  "strptime \<Rightarrow> ('x, 'w) middleware \<Rightarrow> error + (string \<times> struct_time) list \<times> error option" where
  "iter_cookies_expires strptime self =
     (case as_dict (request_cookies self) of
        Inl e \<Rightarrow> Inl e
      | Inr d \<Rightarrow> Inr (iter_items strptime d))"

text \<open>
  Lines 119 to 121, the loop of the filter over the yielded pairs: it stops at a KeyError
  of \<open>del\<close>; when the pairs are used up, the generator's exception (if any) comes out.
\<close>

fun delete_expired ::
  "struct_time \<Rightarrow> (string \<times> struct_time) list \<Rightarrow> error option \<Rightarrow> jar \<Rightarrow> error option \<times> jar" where
  "delete_expired now [] err d = (err, d)"
| "delete_expired now ((name, exp) # ys) err d =
     (if exp < now then
        (case dict_del name d of
           Inl e \<Rightarrow> (Some e, d)
         | Inr d' \<Rightarrow> delete_expired now ys err d')
      else delete_expired now ys err d)"

text \<open>\<open>now\<close> is the result of \<open>time.gmtime()\<close>.\<close>

definition filter_expired_cookies ::
  "strptime \<Rightarrow> struct_time \<Rightarrow> ('x, 'w) middleware \<Rightarrow> (error + unit) \<times> ('x, 'w) middleware" where
  "filter_expired_cookies strptime now self =
     (case iter_cookies_expires strptime self of
        Inl e \<Rightarrow> (Inl e, self)
      | Inr (ys, err) \<Rightarrow>
          (case as_dict (request_cookies self) of
             Inl e \<Rightarrow> (Inl e, self)
           | Inr d \<Rightarrow>
               (case delete_expired now ys err d of
                  (Some e, d') \<Rightarrow> (Inl e, self\<lparr>request_cookies := PDict d'\<rparr>)
                | (None, d') \<Rightarrow> (Inr (), self\<lparr>request_cookies := PDict d'\<rparr>))))"

subsection \<open>cookie\_environ\_string\<close>

text \<open>Lines 150 to 153: \<open>key + '=' + value\<close> for the entries whose value is a string.\<close>

fun str_list :: "jar \<Rightarrow> string list" where
  "str_list [] = []"
| "str_list ((key, PStr value) # items) = (key @ ''='' @ value) # str_list items"
| "str_list ((key, value) # items) = str_list items"

definition cookie_environ_string :: "('x, 'w) middleware \<Rightarrow> error + string" where
  "cookie_environ_string self =
     (case as_dict (request_cookies self) of
        Inl e \<Rightarrow> Inl e
      | Inr d \<Rightarrow> Inr (join '';'' (str_list d)))"

subsection \<open>\_\_call\_\_\<close>

text \<open>
  The WSGI environment: its \<open>HTTP_COOKIE\<close> entry (absent, the header text, or after the
  rewriting the parsed dict) and everything else. \<open>parse_cookie\<close> is Werkzeug's and a
  parameter: from the environment to a dict of strings.
\<close>

record 'e environ =
  HTTP_COOKIE :: "pyval option"
  other :: 'e

definition str_dict :: "(string \<times> string) list \<Rightarrow> jar" where
  "str_dict kvs = map (\<lambda>kv. (fst kv, PStr (snd kv))) kvs"

text \<open>Lines 59 and 60: the parsed cookies without the key \<open>zappa\<close>.\<close>

definition parsed_cookies :: "('e environ \<Rightarrow> (string \<times> string) list) \<Rightarrow> 'e environ \<Rightarrow> jar" where
  "parsed_cookies parse_cookie env = dict_pop ''zappa'' (str_dict (parse_cookie env))"

text \<open>
  Line 62: the environment the application is called with. Its \<open>HTTP_COOKIE\<close> is the
  dict object that \<open>self.request_cookies\<close> names too, so a later merge by
  \<open>encode_response\<close> shows in both; the model gives the content at the moment of the call.
\<close>

definition app_environ :: "('e environ \<Rightarrow> (string \<times> string) list) \<Rightarrow> 'e environ \<Rightarrow> 'e environ" where
  "app_environ parse_cookie env = env\<lparr>HTTP_COOKIE := Some (PDict (parsed_cookies parse_cookie env))\<rparr>"

text \<open>\<open>if self.redirect_content:\<close> is false for \<open>None\<close> and for the empty string.\<close>

fun truthy :: "string option \<Rightarrow> bool" where
  "truthy None = False"
| "truthy (Some s) = (s \<noteq> [])"

text \<open>Line 68: every item of the response becomes the redirect content.\<close>

definition smash :: "string option \<Rightarrow> string list \<Rightarrow> string list" where
  "smash content response =
     (case content of
        Some c \<Rightarrow> (if c \<noteq> [] then map (\<lambda>item. c) response else response)
      | None \<Rightarrow> response)"

text \<open>
  The wrapped application is a callable of the environment and a response-starter; it
  may call the starter, which changes the middleware object, and whoever runs inside it
  may stage \<open>redirect_content\<close>. So it is a function that takes the object and returns it
  with the response or an exception, which \<open>__call__\<close> does not catch (there is no
  \<open>try\<close> in \<open>__call__\<close>, so line 70 is skipped then). It is an argument here instead
  of the attribute \<open>self.application\<close>.

  The response is a list of body chunks: the iterable of an application that has produced
  its body when it returns. An application that returns a generator runs its body only when
  the server iterates the result, after line 70; such a body is outside this model.
\<close>

type_synonym ('x, 'w) starter =
  "string \<Rightarrow> header list \<Rightarrow> 'x \<Rightarrow> ('x, 'w) middleware \<Rightarrow> (error + 'w) \<times> ('x, 'w) middleware"

type_synonym ('e, 'x, 'w) application =
  "'e environ \<Rightarrow> ('x, 'w) starter \<Rightarrow> ('x, 'w) middleware \<Rightarrow>
   (error + string list) \<times> ('x, 'w) middleware"

definition call ::
  "('e environ \<Rightarrow> (string \<times> string) list) \<Rightarrow> ('e, 'x, 'w) application \<Rightarrow> 'e environ \<Rightarrow>
   (string \<Rightarrow> header list \<Rightarrow> 'x \<Rightarrow> 'w) \<Rightarrow> ('x, 'w) middleware \<Rightarrow>
   (error + string list) \<times> ('x, 'w) middleware" where
  "call parse_cookie application env sr self =
     (let self1 = self\<lparr>start_response := Some sr\<rparr>;
          self2 = self1\<lparr>request_cookies := PDict (parsed_cookies parse_cookie env)\<rparr>
      in case application (app_environ parse_cookie env) encode_response self2 of
           (Inl e, self3) \<Rightarrow> (Inl e, self3)
         | (Inr response, self3) \<Rightarrow>
             (Inr (smash (redirect_content self3) response),
              self3\<lparr>redirect_content := None\<rparr>))"

subsection \<open>Notions used in the statements\<close>

text \<open>
  The cookie names of the \<open>Set-Cookie\<close> headers, as line 92 computes them:
  \<open>header[1].split('=', 1)[0].strip()\<close>.
\<close>

definition directive_names :: "header list \<Rightarrow> string list" where
  "directive_names headers =
     map (\<lambda>h. strip (case split1 CHR ''='' (snd h) of n # _ \<Rightarrow> n | [] \<Rightarrow> []))
       (filter (\<lambda>h. fst h = ''Set-Cookie'') headers)"

text \<open>
  Two tests on one entry, read off the code for the lemmas about the loop: the loop of
  lines 119 to 121 deletes the entry when the generator yields an expiration for it and
  \<open>exp < now\<close> holds; the generator raises at the entry.
\<close>

definition loop_deletes :: "strptime \<Rightarrow> struct_time \<Rightarrow> string \<times> pyval \<Rightarrow> bool" where
  "loop_deletes strptime now kv =
     (case cookie_expires strptime (fst kv) (snd kv) of
        Inr (Some exp) \<Rightarrow> exp < now
      | _ \<Rightarrow> False)"

definition raises :: "strptime \<Rightarrow> string \<times> pyval \<Rightarrow> bool" where
  "raises strptime kv =
     (case cookie_expires strptime (fst kv) (snd kv) of Inl e \<Rightarrow> True | Inr r \<Rightarrow> False)"

text \<open>
  What the filter leaves: the generator stops at the first entry that raises, so only the
  entries before that one are examined.
\<close>

definition survivors :: "strptime \<Rightarrow> struct_time \<Rightarrow> jar \<Rightarrow> jar" where
  "survivors sp now d =
     filter (\<lambda>kv. \<not> (kv \<in> set (takeWhile (\<lambda>kv. \<not> raises sp kv) d) \<and> loop_deletes sp now kv)) d"

subsection \<open>The expiration of an entry in the words of the specification\<close>

text \<open>
  Section 4.2 of the specification: an \<open>expires=\<close> directive is looked for within the
  entry's raw value, its date is parsed in the standard format and, when that fails, in the
  two-digit-year format, and the entry is expired when the parsed timestamp is strictly
  earlier than \<open>now\<close>. These definitions follow those words, not the code. The raw value
  is the cookie's value followed by its directives, with semicolons between them.
\<close>

definition value_piece :: "string \<Rightarrow> string" where
  "value_piece v = (case split CHR '';'' v of p # ps \<Rightarrow> p | [] \<Rightarrow> [])"

definition attributes :: "string \<Rightarrow> string list" where
  "attributes v = (case split CHR '';'' v of p # ps \<Rightarrow> ps | [] \<Rightarrow> [])"

text \<open>
  A directive is an \<open>expires=\<close> directive when, stripped, it begins with these letters
  in any case; its date is the text after them. The first such directive counts.
\<close>

definition spec_is_expires :: "string \<Rightarrow> bool" where
  "spec_is_expires p = startswith (lower (strip p)) ''expires=''"

fun spec_find_expires :: "string list \<Rightarrow> string option" where
  "spec_find_expires [] = None"
| "spec_find_expires (p # ps) =
     (if spec_is_expires p then Some (drop 8 (strip p)) else spec_find_expires ps)"

fun spec_expires_directive :: "pyval \<Rightarrow> string option" where
  "spec_expires_directive (PStr v) = spec_find_expires (attributes v)"
| "spec_expires_directive v = None"

definition spec_expiration :: "strptime \<Rightarrow> pyval \<Rightarrow> struct_time option" where
  "spec_expiration strptime v =
     (case spec_expires_directive v of
        None \<Rightarrow> None
      | Some text \<Rightarrow>
          (case strptime text format_Y of
             Some exp \<Rightarrow> Some exp
           | None \<Rightarrow> strptime text format_y))"

text \<open>
  The timestamp of a \<open>struct_time\<close> is its date and time of day: year, month, day, hour,
  minute, second.
\<close>

definition timestamp :: "struct_time \<Rightarrow> int \<times> int \<times> int \<times> int \<times> int \<times> int" where
  "timestamp t = (case t of (y, mo, d, h, mi, s, rest) \<Rightarrow> (y, mo, d, h, mi, s))"

definition spec_earlier :: "struct_time \<Rightarrow> struct_time \<Rightarrow> bool" where
  "spec_earlier a b = (timestamp a < timestamp b)"

text \<open>
  The entries for which the text \<open>expires\<close> occurs only at the head of an \<open>expires=\<close>
  directive whose date holds no further \<open>=\<close>: it occurs neither in the cookie's name nor
  in its value nor in another directive. An entry that is not a string has no directive.
\<close>

definition expires_free :: "string \<Rightarrow> bool" where
  "expires_free p = (\<not> contains (lower (strip p)) ''expires'')"

definition plain_directive :: "string \<Rightarrow> bool" where
  "plain_directive p = (spec_is_expires p \<and> count CHR ''='' (strip p) = 1)"

fun expires_only_as_directive :: "string \<Rightarrow> pyval \<Rightarrow> bool" where
  "expires_only_as_directive name (PStr v) =
     (CHR '';'' \<notin> set name \<and> expires_free (name @ ''='' @ value_piece v) \<and>
      list_all (\<lambda>p. expires_free p \<or> plain_directive p) (attributes v))"
| "expires_only_as_directive name v = True"

text \<open>What lines 139 to 142 make of a date text.\<close>

definition code_parse :: "strptime \<Rightarrow> string \<Rightarrow> error + struct_time option" where
  "code_parse sp text =
     (case sp text format_Y of
        Some exp \<Rightarrow> Inr (Some exp)
      | None \<Rightarrow> (case sp text format_y of Some exp \<Rightarrow> Inr (Some exp) | None \<Rightarrow> Inl ValueError))"

subsection \<open>Concrete collaborators and objects for the examples\<close>

text \<open>
  A response-starter that hands back the header list it is called with, and an object
  holding the jar \<open>{a: 1, b: 2}\<close>.
\<close>

definition echo_headers :: "string \<Rightarrow> header list \<Rightarrow> string option \<Rightarrow> header list" where
  "echo_headers status headers exc_info = headers"

definition self_ab :: "(string option, header list) middleware" where
  "self_ab = init\<lparr>request_cookies := PDict [(''a'', PStr ''1''), (''b'', PStr ''2'')],
                  start_response := Some echo_headers\<rparr>"

text \<open>
  A \<open>strptime\<close> that knows one date in both formats and rejects every other text; on
  the texts used below it answers as \<open>time.strptime\<close> does. Two values of
  \<open>time.gmtime()\<close>: the first seconds of 2021 and of 2019.
\<close>

definition strptime_stub :: strptime where
  "strptime_stub text fmt =
     (if text = ''Wed, 01-Jan-2020 00:00:00 GMT'' \<and> fmt = format_Y then Some (2020, 1, 1, 0, 0, 0, 2, 1, - 1)
      else if text = ''Wed, 01-Jan-20 00:00:00 GMT'' \<and> fmt = format_y then Some (2020, 1, 1, 0, 0, 0, 2, 1, - 1)
      else None)"

definition now_2021 :: struct_time where
  "now_2021 = (2021, 1, 1, 0, 0, 0, 4, 1, 0)"

definition now_2019 :: struct_time where
  "now_2019 = (2019, 1, 1, 0, 0, 0, 1, 1, 0)"

text \<open>
  A base-58 decoder that knows the encodings of \<open>{}\<close> and of \<open>{\<close>, and a JSON reader
  that knows \<open>{}\<close>; both raise ValueError on anything else, as the libraries do on
  the texts used below.
\<close>

definition b58decode_stub :: "string \<Rightarrow> error + string" where
  "b58decode_stub s = (if s = ''AQ4'' then Inr ''{}'' else if s = ''38'' then Inr ''{'' else Inl ValueError)"

definition json_loads_stub :: "string \<Rightarrow> error + pyval" where
  "json_loads_stub s = (if s = ''{}'' then Inr (PDict []) else Inl ValueError)"

text \<open>
  A cookie-header parser in the manner of Werkzeug's \<open>parse_cookie\<close>, for unquoted
  values: pieces between semicolons, each cut at its first \<open>=\<close>.
\<close>

definition simple_parse_cookie :: "unit environ \<Rightarrow> (string \<times> string) list" where
  "simple_parse_cookie env =
     (case HTTP_COOKIE env of
        Some (PStr s) \<Rightarrow>
          map (\<lambda>p. case split1 CHR ''='' (strip p) of n # v # _ \<Rightarrow> (n, v) | _ \<Rightarrow> (strip p, []))
            (split CHR '';'' s)
      | _ \<Rightarrow> [])"

text \<open>
  Two applications: one answers 200 with a two-chunk body; under the other, redirect
  content is staged and then the application raises.
\<close>

definition hello_app :: "(unit, string option, header list) application" where
  "hello_app env starter self =
     (case starter ''200 OK'' [(''Content-Type'', ''text/plain'')] None self of
        (Inl e, self') \<Rightarrow> (Inl e, self')
      | (Inr w, self') \<Rightarrow> (Inr [''Hello, '', ''world''], self'))"

definition staging_app_raises :: "(unit, string option, header list) application" where
  "staging_app_raises env starter self =
     (Inl ValueError, self\<lparr>redirect_content := Some ''<html>''\<rparr>)"

text \<open>
  A request whose \<open>Cookie\<close> header carries the aggregate cookie (the base-58 text of a
  JSON object with one entry \<open>a\<close>) beside a plain cookie \<open>b\<close>.
\<close>

definition env_zappa :: "unit environ" where
  "env_zappa = \<lparr>HTTP_COOKIE = Some (PStr ''zappa=7vEqv9ieRF2uZe; b=2''), other = ()\<rparr>"

text \<open>Objects whose jars hold expiring, unparseable and non-string entries.\<close>

definition self_expiring :: "(string option, header list) middleware" where
  "self_expiring = init\<lparr>request_cookies := PDict
     [(''a'', PStr ''1; expires=never''),
      (''b'', PStr ''2; expires=Wed, 01-Jan-2020 00:00:00 GMT''),
      (''c'', PInt 3)]\<rparr>"

definition self_unparseable :: "(string option, header list) middleware" where
  "self_unparseable = init\<lparr>request_cookies := PDict [(''a'', PStr ''1; expires=never'')]\<rparr>"

definition jar_fresh :: jar where
  "jar_fresh =
     [(''b'', PStr ''2; expires=Wed, 01-Jan-2020 00:00:00 GMT''),
      (''c'', PList [PStr ''3; expires=Wed, 01-Jan-2020 00:00:00 GMT'']),
      (''s'', PStr ''plain'')]"

definition self_fresh :: "(string option, header list) middleware" where
  "self_fresh = init\<lparr>request_cookies := PDict jar_fresh\<rparr>"

text \<open>
  The first second of 2020 as \<open>time.gmtime()\<close> gives it (a Wednesday, dst flag 0), a
  jar whose only entry expires in that second, and a jar whose only entry has \<open>expires\<close>
  in its name and a date as its value.
\<close>

definition now_2020 :: struct_time where
  "now_2020 = (2020, 1, 1, 0, 0, 0, 2, 1, 0)"

definition self_boundary :: "(string option, header list) middleware" where
  "self_boundary = init\<lparr>request_cookies := PDict
     [(''b'', PStr ''2; expires=Wed, 01-Jan-2020 00:00:00 GMT'')]\<rparr>"

definition self_named :: "(string option, header list) middleware" where
  "self_named = init\<lparr>request_cookies := PDict
     [(''session_expires'', PStr ''Wed, 01-Jan-2020 00:00:00 GMT; path=/'')]\<rparr>"

section \<open>Properties\<close>

subsection \<open>Evaluation rules\<close>

lemmas eval_defs = strip_def is_space_def lower_def lower_char_def count_def
  expires_text_def parse_expires_def strptime_stub_def format_Y_def format_y_def

lemmas model_defs = filter_expired_cookies_def iter_cookies_expires_def init_def eval_defs
  dict_del_def keys_def

lemmas spec_defs = spec_expiration_def spec_is_expires_def attributes_def value_piece_def
  spec_earlier_def timestamp_def expires_free_def plain_directive_def

subsection \<open>The string operations\<close>

lemma split_not_Nil: "split c s \<noteq> []"
  by (induction s) (auto split: list.splits)

lemma split_append:
  "c \<notin> set a \<Longrightarrow> split c (a @ b) = (case split c b of p # ps \<Rightarrow> (a @ p) # ps | [] \<Rightarrow> [a])"
  using split_not_Nil [of c b]
  by (induction a) (auto split: list.splits)

lemma split_no_sep: "c \<notin> set s \<Longrightarrow> split c s = [s]"
  by (induction s) auto

lemma split_pieces_subset: "p \<in> set (split c s) \<Longrightarrow> set p \<subseteq> set s"
proof (induction s arbitrary: p)
  case Nil
  then show ?case by simp
next
  case (Cons x xs)
  obtain q qs where q: "split c xs = q # qs" using split_not_Nil [of c xs] by (cases "split c xs") auto
  from Cons.IH [of q] Cons.IH q have "set q \<subseteq> set xs" "\<And>r. r \<in> set qs \<Longrightarrow> set r \<subseteq> set xs"
    by auto
  with Cons.prems q show ?case by (auto split: if_splits)
qed

lemma set_strip: "set (strip s) \<subseteq> set s"
  unfolding strip_def
  by (metis set_dropWhileD set_rev subsetI)

lemma lower_char_range: "lower_char c = c \<or> lower_char c \<in> set ''abcdefghijklmnopqrstuvwxyz''"
proof (cases "map_of (zip ''ABCDEFGHIJKLMNOPQRSTUVWXYZ'' ''abcdefghijklmnopqrstuvwxyz'') c")
  case None
  then show ?thesis by (simp add: lower_char_def)
next
  case (Some l)
  then have "(c, l) \<in> set (zip ''ABCDEFGHIJKLMNOPQRSTUVWXYZ'' ''abcdefghijklmnopqrstuvwxyz'')"
    by (rule map_of_SomeD)
  then have "l \<in> set ''abcdefghijklmnopqrstuvwxyz''" by (rule set_zip_rightD)
  with Some show ?thesis by (simp add: lower_char_def)
qed

lemma lower_char_eq: "lower_char c = CHR ''='' \<Longrightarrow> c = CHR ''=''"
  using lower_char_range [of c] by auto

lemma lower_char_eq_self: "lower_char CHR ''='' = CHR ''=''"
  by (simp add: lower_char_def)

lemma startswith_take: "startswith s p \<longleftrightarrow> length p \<le> length s \<and> take (length p) s = p"
  by (induction s p rule: startswith.induct) auto

lemma startswith_contains: "startswith s p \<Longrightarrow> contains s p"
  by (cases s) auto

lemma startswith_prefix: "startswith s (p @ q) \<Longrightarrow> startswith s p"
  by (auto simp: startswith_take) (metis append_eq_conv_conj take_take min.absorb1 le_add1 length_append take_all_iff)

lemma split_at_sep: "c \<notin> set a \<Longrightarrow> split c (a @ c # b) = a # split c b"
  using split_not_Nil [of c b]
  by (induction a) (auto split: list.splits)

lemma expires_directive_text:
  assumes "startswith (lower s) ''expires=''" and "count CHR ''='' s = 1"
  shows "expires_text s = Inr (drop 8 s)"
proof -
  from assms(1) have len: "8 \<le> length s" and tk: "take 8 (lower s) = ''expires=''"
    by (simp_all add: startswith_take eval_nat_numeral lower_def)
  have s: "s = take 7 s @ s ! 7 # drop 8 s"
    using len id_take_nth_drop [of 7 s] by simp
  have l7: "map lower_char (take 7 s) = ''expires''"
  proof -
    have "take 7 (take 8 (lower s)) = ''expires''" by (simp add: tk)
    then show ?thesis by (simp add: lower_def take_map)
  qed
  have "lower_char (s ! 7) = CHR ''=''"
  proof -
    have "take 8 (lower s) ! 7 = CHR ''=''" by (simp add: tk)
    then show ?thesis using len by (simp add: lower_def)
  qed
  then have c: "s ! 7 = CHR ''=''" by (rule lower_char_eq)
  have notin: "CHR ''='' \<notin> set (take 7 s)"
  proof
    assume "CHR ''='' \<in> set (take 7 s)"
    then have "lower_char CHR ''='' \<in> set (map lower_char (take 7 s))" by (simp del: map_eq_Cons_conv)
    then show False by (simp add: l7 lower_char_eq_self)
  qed
  have "count CHR ''='' s = count CHR ''='' (take 7 s) + 1 + count CHR ''='' (drop 8 s)"
    by (subst s) (simp add: count_def c)
  with assms(2) have "count CHR ''='' (drop 8 s) = 0" by simp
  then have rest: "CHR ''='' \<notin> set (drop 8 s)"
    by (auto simp: count_def filter_empty_conv)
  have "split CHR ''='' s = take 7 s # split CHR ''='' (drop 8 s)"
    by (subst s) (simp add: c split_at_sep [OF notin])
  also have "\<dots> = [take 7 s, drop 8 s]" by (simp add: split_no_sep [OF rest])
  finally show ?thesis by (simp add: expires_text_def)
qed

lemma spec_is_expires_contains: "spec_is_expires p \<Longrightarrow> \<not> expires_free p"
proof -
  assume "spec_is_expires p"
  then have "startswith (lower (strip p)) (''expires'' @ ''='')" by (simp add: spec_is_expires_def)
  then have "startswith (lower (strip p)) ''expires''" by (rule startswith_prefix)
  then show ?thesis unfolding expires_free_def by (simp add: startswith_contains)
qed

lemma startswith_set: "startswith s p \<Longrightarrow> set p \<subseteq> set s"
  by (auto simp: startswith_take) (metis in_set_takeD)

lemma spec_is_expires_has_eq: "spec_is_expires p \<Longrightarrow> CHR ''='' \<in> set p"
proof -
  assume "spec_is_expires p"
  then have "CHR ''='' \<in> set (lower (strip p))"
    using startswith_set [of "lower (strip p)" "''expires=''"] by (auto simp: spec_is_expires_def)
  then obtain x where "x \<in> set (strip p)" "lower_char x = CHR ''=''" by (auto simp: lower_def)
  then have "CHR ''='' \<in> set (strip p)" using lower_char_eq by auto
  then show ?thesis using set_strip by blast
qed

lemma spec_find_none: "list_all (\<lambda>p. \<not> spec_is_expires p) ps \<Longrightarrow> spec_find_expires ps = None"
  by (induction ps) auto

lemma attributes_subset: "p \<in> set (attributes v) \<Longrightarrow> set p \<subseteq> set v"
proof -
  assume "p \<in> set (attributes v)"
  then have "p \<in> set (split CHR '';'' v)"
    by (cases "split CHR '';'' v") (simp_all add: attributes_def)
  then show ?thesis by (rule split_pieces_subset)
qed

lemma no_eq_no_directive:
  assumes "CHR ''='' \<notin> set v"
  shows "spec_find_expires (attributes v) = None"
proof (rule spec_find_none)
  show "list_all (\<lambda>p. \<not> spec_is_expires p) (attributes v)"
    unfolding list_all_iff using assms attributes_subset spec_is_expires_has_eq by blast
qed

subsection \<open>The merge of encode\_response\<close>

lemma map_of_dict_update: "map_of (dict_update kv d) = (map_of d)(fst kv \<mapsto> snd kv)"
  by (simp add: dict_update_def update_conv')

lemma map_of_update_all:
  "map_of (update_all kvs d) n =
     (case map_of (rev kvs) n of Some v \<Rightarrow> Some v | None \<Rightarrow> map_of d n)"
  unfolding update_all_def
proof (induction kvs arbitrary: d)
  case Nil
  show ?case by simp
next
  case (Cons kv kvs)
  have "map_of (fold dict_update (kv # kvs) d) n =
          (case map_of (rev kvs) n of Some v \<Rightarrow> Some v | None \<Rightarrow> map_of (dict_update kv d) n)"
    by (simp add: Cons.IH)
  also have "\<dots> = (case map_of (rev (kv # kvs)) n of Some v \<Rightarrow> Some v | None \<Rightarrow> map_of d n)"
    by (cases kv) (simp add: map_of_dict_update map_add_def split: option.splits)
  finally show ?case .
qed

lemma keys_update_all: "set (keys d) \<subseteq> set (keys (update_all kvs d))"
  unfolding update_all_def keys_def
proof (induction kvs arbitrary: d)
  case Nil
  show ?case by simp
next
  case (Cons kv kvs)
  have "set (map fst d) \<subseteq> set (map fst (dict_update kv d))"
    by (auto simp: dict_update_def update_keys)
  also have "\<dots> \<subseteq> set (map fst (fold dict_update kvs (dict_update kv d)))"
    by (rule Cons.IH)
  finally show ?case by simp
qed

lemma distinct_update_all: "distinct (keys d) \<Longrightarrow> distinct (keys (update_all kvs d))"
  unfolding update_all_def keys_def
  by (induction kvs arbitrary: d) (simp_all add: dict_update_def distinct_update)

lemma cookie_dict_name:
  "cookie_dict v = Inr kv \<Longrightarrow>
   fst kv = strip (case split1 CHR ''='' v of n # _ \<Rightarrow> n | [] \<Rightarrow> [])"
  by (auto simp: cookie_dict_def split: list.splits)

lemma cookie_dicts_names:
  "cookie_dicts headers = Inr kvs \<Longrightarrow> map fst kvs = directive_names headers"
  unfolding directive_names_def
  by (induction headers arbitrary: kvs)
     (auto split: if_splits sum.splits dest: cookie_dict_name)

lemma cookie_dicts_append:
  "cookie_dicts (hs1 @ hs2) =
     (case cookie_dicts hs1 of
        Inl e \<Rightarrow> Inl e
      | Inr k1 \<Rightarrow> (case cookie_dicts hs2 of Inl e \<Rightarrow> Inl e | Inr k2 \<Rightarrow> Inr (k1 @ k2)))"
  by (induction hs1) (auto split: sum.splits)

lemma encode_response_jar:
  assumes "request_cookies self = PDict d"
  shows "request_cookies (snd (encode_response status headers exc self)) =
           (case cookie_dicts headers of Inl e \<Rightarrow> PDict d | Inr kvs \<Rightarrow> PDict (update_all kvs d))"
  using assms by (simp add: encode_response_def Let_def split: sum.splits option.splits)

subsection \<open>The expiration filter\<close>

lemma iter_items_snd:
  "snd (iter_items sp d) = None \<longleftrightarrow> (\<forall>kv \<in> set d. \<not> raises sp kv)"
proof (induction d)
  case Nil
  show ?case by simp
next
  case (Cons kv d)
  obtain name v where kv: "kv = (name, v)" by (cases kv)
  show ?case
  proof (cases "cookie_expires sp name v")
    case (Inl e)
    then show ?thesis by (simp add: kv raises_def)
  next
    case (Inr r)
    then show ?thesis using Cons.IH
      by (cases r) (simp_all add: kv raises_def case_prod_beta)
  qed
qed

lemma delete_expired_eq:
  "distinct (map fst ys) \<Longrightarrow> fst ` set ys \<subseteq> set (keys d) \<Longrightarrow>
   delete_expired now ys err d =
     (err, filter (\<lambda>kv. fst kv \<notin> set (map fst (filter (\<lambda>y. snd y < now) ys))) d)"
proof (induction ys arbitrary: d)
  case Nil
  show ?case by simp
next
  case (Cons y ys)
  obtain name exp where y: "y = (name, exp)" by (cases y)
  show ?case
  proof (cases "exp < now")
    case False
    with Cons y show ?thesis by (auto intro!: filter_cong)
  next
    case True
    have in_d: "name \<in> set (keys d)" using Cons.prems y by simp
    have "name \<notin> fst ` set ys" using Cons.prems(1) y by simp
    moreover have "fst ` set ys \<subseteq> set (keys d)" using Cons.prems(2) by simp
    ultimately have sub: "fst ` set ys \<subseteq> set (keys (AList.delete name d))"
      unfolding keys_def delete_keys by (simp add: subset_iff) metis
    have "delete_expired now (y # ys) err d = delete_expired now ys err (AList.delete name d)"
      using True in_d y by (simp add: dict_del_def)
    also have "\<dots> = (err, filter (\<lambda>kv. fst kv \<notin> set (map fst (filter (\<lambda>y. snd y < now) ys))) (AList.delete name d))"
      using Cons.IH [OF _ sub] Cons.prems(1) by simp
    also have "filter (\<lambda>kv. fst kv \<notin> set (map fst (filter (\<lambda>y. snd y < now) ys))) (AList.delete name d) =
               filter (\<lambda>kv. fst kv \<notin> set (map fst (filter (\<lambda>y. snd y < now) (y # ys)))) d"
      using True y by (auto simp: AList.delete_eq intro!: filter_cong)
    finally show ?thesis .
  qed
qed

lemma iter_items_Cons:
  "iter_items sp (kv # d) =
     (case cookie_expires sp (fst kv) (snd kv) of
        Inl e \<Rightarrow> ([], Some e)
      | Inr None \<Rightarrow> iter_items sp d
      | Inr (Some exp) \<Rightarrow> ((fst kv, exp) # fst (iter_items sp d), snd (iter_items sp d)))"
  by (cases kv) (simp add: case_prod_beta split: sum.splits option.splits)

lemma iter_items_expired_names:
  "map fst (filter (\<lambda>y. snd y < now) (fst (iter_items sp d))) =
   map fst (filter (loop_deletes sp now) (takeWhile (\<lambda>kv. \<not> raises sp kv) d))"
proof (induction d)
  case Nil
  show ?case by simp
next
  case (Cons kv d)
  show ?case
  proof (cases "cookie_expires sp (fst kv) (snd kv)")
    case (Inl e)
    then show ?thesis by (simp add: iter_items_Cons raises_def)
  next
    case (Inr r)
    then show ?thesis using Cons.IH
      by (cases r) (simp_all add: iter_items_Cons raises_def loop_deletes_def)
  qed
qed

lemma iter_items_keys: "fst ` set (fst (iter_items sp d)) \<subseteq> set (keys d)"
  unfolding keys_def
proof (induction d)
  case Nil
  show ?case by simp
next
  case (Cons kv d)
  show ?case
  proof (cases "cookie_expires sp (fst kv) (snd kv)")
    case (Inl e)
    then show ?thesis by (simp add: iter_items_Cons)
  next
    case (Inr r)
    then show ?thesis using Cons.IH
      by (cases r) (auto simp add: iter_items_Cons simp del: iter_items.simps)
  qed
qed

lemma iter_items_distinct: "distinct (keys d) \<Longrightarrow> distinct (map fst (fst (iter_items sp d)))"
proof (induction d)
  case Nil
  show ?case by simp
next
  case (Cons kv d)
  have notin: "fst kv \<notin> fst ` set (fst (iter_items sp d))"
    using Cons.prems iter_items_keys [of sp d] by (auto simp: keys_def)
  have IH: "distinct (map fst (fst (iter_items sp d)))"
    using Cons by (simp add: keys_def)
  show ?case
  proof (cases "cookie_expires sp (fst kv) (snd kv)")
    case (Inl e)
    then show ?thesis by (simp add: iter_items_Cons)
  next
    case (Inr r)
    then show ?thesis using IH notin
      by (cases r) (simp_all add: iter_items_Cons del: iter_items.simps)
  qed
qed

lemma survivors_eq:
  assumes "distinct (keys d)"
  shows "filter (\<lambda>kv. fst kv \<notin> set (map fst (filter (\<lambda>y. snd y < now) (fst (iter_items sp d))))) d =
         survivors sp now d"
  unfolding survivors_def iter_items_expired_names
proof (rule filter_cong [OF refl])
  fix kv assume kv: "kv \<in> set d"
  let ?T = "takeWhile (\<lambda>kv. \<not> raises sp kv) d"
  have "fst kv \<in> set (map fst (filter (loop_deletes sp now) ?T)) \<longleftrightarrow> kv \<in> set ?T \<and> loop_deletes sp now kv"
  proof
    assume "fst kv \<in> set (map fst (filter (loop_deletes sp now) ?T))"
    then obtain kv' where kv': "kv' \<in> set ?T" "loop_deletes sp now kv'" "fst kv' = fst kv" by auto
    then have "kv' \<in> set d" by (auto dest: set_takeWhileD)
    with kv kv'(3) assms have "kv' = kv"
      unfolding keys_def by (metis eq_key_imp_eq_value prod.collapse)
    with kv' show "kv \<in> set ?T \<and> loop_deletes sp now kv" by simp
  next
    assume "kv \<in> set ?T \<and> loop_deletes sp now kv"
    then show "fst kv \<in> set (map fst (filter (loop_deletes sp now) ?T))" by auto
  qed
  then show "(fst kv \<notin> set (map fst (filter (loop_deletes sp now) ?T))) =
             (\<not> (kv \<in> set ?T \<and> loop_deletes sp now kv))" by simp
qed

lemma filter_expired_cookies_eq:
  assumes "request_cookies self = PDict d" and "distinct (keys d)"
  shows "filter_expired_cookies sp now self =
           ((case snd (iter_items sp d) of None \<Rightarrow> Inr () | Some e \<Rightarrow> Inl e),
            self\<lparr>request_cookies := PDict (survivors sp now d)\<rparr>)"
proof -
  obtain ys err where it: "iter_items sp d = (ys, err)" by (cases "iter_items sp d")
  have dist: "distinct (map fst ys)" using iter_items_distinct [OF assms(2), of sp] it by simp
  have sub: "fst ` set ys \<subseteq> set (keys d)" using iter_items_keys [of sp d] it by simp
  have "delete_expired now ys err d = (err, survivors sp now d)"
    using delete_expired_eq [OF dist sub, of now err] survivors_eq [OF assms(2), of now sp] it
    by simp
  then show ?thesis
    using assms(1) it
    by (simp add: filter_expired_cookies_def iter_cookies_expires_def split: option.splits)
qed

lemma survivors_no_raise:
  "\<forall>kv \<in> set d. \<not> raises sp kv \<Longrightarrow> survivors sp now d = filter (\<lambda>kv. \<not> loop_deletes sp now kv) d"
  unfolding survivors_def
  by (rule filter_cong) (auto simp: takeWhile_eq_all_conv [THEN iffD2])

lemma scan_kvps_first:
  assumes "list_all (\<lambda>p. \<not> contains (lower (strip p)) ''expires'') pre"
    and "contains (lower (strip kvp)) ''expires''"
  shows "scan_kvps sp (pre @ kvp # post) =
           (case parse_expires sp (strip kvp) of Inl e \<Rightarrow> Inl e | Inr exp \<Rightarrow> Inr (Some exp))"
  using assms by (induction pre) (simp_all add: Let_def)

lemma raises_survives:
  assumes "kv \<in> set d" and "raises sp kv"
  shows "kv \<in> set (survivors sp now d)"
  using assms by (auto simp: survivors_def raises_def loop_deletes_def split: sum.splits)

lemma str_list_removeAll:
  "\<not> is_basestring v \<Longrightarrow> str_list (removeAll (n, v) d) = str_list d"
  by (induction d rule: str_list.induct) auto

lemma not_basestring_not_deleted: "\<not> is_basestring v \<Longrightarrow> \<not> loop_deletes sp now (n, v)"
  by (cases v) (simp_all add: loop_deletes_def)

lemma scan_kvps_spec:
  assumes "list_all (\<lambda>p. expires_free p \<or> plain_directive p) ps"
  shows "scan_kvps sp ps =
           (case spec_find_expires ps of None \<Rightarrow> Inr None | Some text \<Rightarrow> code_parse sp text)"
  using assms
proof (induction ps)
  case Nil
  show ?case by simp
next
  case (Cons p ps)
  show ?case
  proof (cases "spec_is_expires p")
    case True
    with Cons.prems have pd: "plain_directive p" using spec_is_expires_contains by auto
    then have "expires_text (strip p) = Inr (drop 8 (strip p))"
      by (simp add: plain_directive_def spec_is_expires_def expires_directive_text)
    moreover have "contains (lower (strip p)) ''expires''"
      using spec_is_expires_contains [OF True] by (simp add: expires_free_def)
    ultimately show ?thesis using True
      by (simp add: Let_def parse_expires_def code_parse_def split: option.splits)
  next
    case False
    with Cons.prems have "expires_free p" by (auto simp: plain_directive_def)
    then show ?thesis using False Cons by (simp add: Let_def expires_free_def)
  qed
qed

lemma split_cookie:
  assumes "CHR '';'' \<notin> set name"
  shows "split CHR '';'' (name @ ''='' @ v) = (name @ ''='' @ value_piece v) # attributes v"
proof -
  have "CHR '';'' \<notin> set (name @ ''='')" using assms by simp
  from split_append [OF this, of v] show ?thesis
    using split_not_Nil [of "CHR '';''" v]
    by (simp add: value_piece_def attributes_def split: list.splits)
qed

lemma cookie_expires_spec:
  assumes "expires_only_as_directive name (PStr v)"
  shows "cookie_expires sp name (PStr v) =
           (case spec_expires_directive (PStr v) of
              None \<Rightarrow> Inr None
            | Some text \<Rightarrow> code_parse sp text)"
proof (cases "count CHR ''='' (name @ ''='' @ v) = 1")
  case True
  then have "CHR ''='' \<notin> set v" by (auto simp: count_def filter_empty_conv)
  then have "spec_find_expires (attributes v) = None" by (rule no_eq_no_directive)
  with True show ?thesis by simp
next
  case False
  from assms have n: "CHR '';'' \<notin> set name"
    and first: "expires_free (name @ ''='' @ value_piece v)"
    and rest: "list_all (\<lambda>p. expires_free p \<or> plain_directive p) (attributes v)" by simp_all
  have pieces: "split CHR '';'' (name @ ''='' @ v) = (name @ ''='' @ value_piece v) # attributes v"
    by (rule split_cookie [OF n])
  have "cookie_expires sp name (PStr v) = scan_kvps sp (split CHR '';'' (name @ ''='' @ v))"
    using False by (simp add: Let_def)
  also have "\<dots> = scan_kvps sp ((name @ ''='' @ value_piece v) # attributes v)"
    by (simp only: pieces)
  also have "\<dots> = scan_kvps sp (attributes v)"
    using first by (simp add: Let_def expires_free_def)
  finally show ?thesis using scan_kvps_spec [OF rest, of sp] by simp
qed

lemma timestamp_less: "timestamp a < timestamp b \<Longrightarrow> a < b"
  by (cases a, cases b) (auto simp: timestamp_def less_prod_def split: prod.splits)

lemma timestamp_greater: "timestamp b < timestamp a \<Longrightarrow> \<not> a < b"
  using timestamp_less [of b a] by (simp add: less_asym)

lemma cookie_expires_spec_any:
  assumes "expires_only_as_directive name v"
  shows "cookie_expires sp name v =
           (case spec_expires_directive v of
              None \<Rightarrow> Inr None
            | Some text \<Rightarrow> code_parse sp text)"
  using assms cookie_expires_spec by (cases v) simp_all

lemma code_parse_spec:
  "code_parse sp text = Inr (Some exp) \<longleftrightarrow>
     (case sp text format_Y of Some t \<Rightarrow> Some t | None \<Rightarrow> sp text format_y) = Some exp"
  by (simp add: code_parse_def split: option.splits)

lemma code_parse_not_None: "code_parse sp text \<noteq> Inr None"
  by (simp add: code_parse_def split: option.splits)

lemma spec_expiration_yield:
  assumes "expires_only_as_directive name v"
  shows "spec_expiration sp v = Some exp \<longleftrightarrow> cookie_expires sp name v = Inr (Some exp)"
  unfolding cookie_expires_spec_any [OF assms] spec_expiration_def
  by (simp add: code_parse_spec split: option.splits)

lemma removed_key:
  assumes "distinct (keys d)" and "(name, v) \<in> set d" and "\<not> P (name, v)"
  shows "name \<notin> set (keys (filter P d))"
proof
  assume "name \<in> set (keys (filter P d))"
  then obtain v' where v': "(name, v') \<in> set d" "P (name, v')" by (auto simp: keys_def)
  with assms(1,2) have "v' = v" unfolding keys_def by (metis eq_key_imp_eq_value)
  with v' assms(3) show False by simp
qed

lemma iter_items_raise_at:
  assumes "list_all (\<lambda>kv. \<not> raises sp kv) before"
    and "cookie_expires sp (fst kv) (snd kv) = Inl e"
  shows "snd (iter_items sp (before @ kv # after)) = Some e"
  using assms(1)
proof (induction before)
  case Nil
  show ?case using assms(2) by (simp add: iter_items_Cons)
next
  case (Cons x xs)
  then have nr: "\<not> raises sp x" and IH: "snd (iter_items sp (xs @ kv # after)) = Some e" by simp_all
  show ?case
  proof (cases "cookie_expires sp (fst x) (snd x)")
    case (Inl e')
    with nr show ?thesis by (simp add: raises_def)
  next
    case (Inr y)
    then show ?thesis using IH
      by (cases y) (simp_all add: iter_items_Cons del: iter_items.simps)
  qed
qed

subsection \<open>The call\<close>

lemma parsed_cookies_filter:
  "parsed_cookies parse_cookie env =
     filter (\<lambda>kv. fst kv \<noteq> ''zappa'') (str_dict (parse_cookie env))"
  unfolding parsed_cookies_def dict_pop_def AList.delete_eq
  by (rule filter_cong) auto

lemma call_result:
  "call parse_cookie application env sr self =
     (case application (app_environ parse_cookie env) encode_response
             (self\<lparr>start_response := Some sr,
                   request_cookies := PDict (parsed_cookies parse_cookie env)\<rparr>) of
        (Inl e, self3) \<Rightarrow> (Inl e, self3)
      | (Inr response, self3) \<Rightarrow>
          (Inr (smash (redirect_content self3) response), self3\<lparr>redirect_content := None\<rparr>))"
  by (simp add: call_def Let_def)

text \<open>
  The path on which \<open>__call__\<close> returns a response: the slot is \<open>None\<close> afterwards,
  truthy content has replaced every chunk, and a next request with nothing staged gets
  its own body.
\<close>

lemma call_clears_slot_on_return:
  assumes "call parse_cookie application env sr self = (Inr body, self')"
  shows "redirect_content self' = None \<and>
         (\<exists>response self3.
            application (app_environ parse_cookie env) encode_response
              (self\<lparr>start_response := Some sr,
                    request_cookies := PDict (parsed_cookies parse_cookie env)\<rparr>) =
              (Inr response, self3) \<and>
            self' = self3\<lparr>redirect_content := None\<rparr> \<and>
            (\<forall>c. redirect_content self3 = Some c \<and> c \<noteq> [] \<longrightarrow> body = map (\<lambda>item. c) response) \<and>
            (\<not> truthy (redirect_content self3) \<longrightarrow> body = response)) \<and>
         (\<forall>application2 env2 sr2 body2 self2.
            (\<forall>s. redirect_content (snd (application2 (app_environ parse_cookie env2) encode_response s)) =
                  redirect_content s) \<and>
            call parse_cookie application2 env2 sr2 self' = (Inr body2, self2) \<longrightarrow>
            fst (application2 (app_environ parse_cookie env2) encode_response
                   (self'\<lparr>start_response := Some sr2,
                          request_cookies := PDict (parsed_cookies parse_cookie env2)\<rparr>)) = Inr body2)"
proof -
  let ?run = "application (app_environ parse_cookie env) encode_response
                (self\<lparr>start_response := Some sr,
                      request_cookies := PDict (parsed_cookies parse_cookie env)\<rparr>)"
  obtain res self3 where run: "?run = (res, self3)" by (cases ?run)
  from assms run obtain response where res: "res = Inr response"
    and body: "body = smash (redirect_content self3) response"
    and self': "self' = self3\<lparr>redirect_content := None\<rparr>"
    by (cases res) (auto simp: call_result)
  have cleared: "redirect_content self' = None" using self' by simp
  have first: "\<forall>c. redirect_content self3 = Some c \<and> c \<noteq> [] \<longrightarrow> body = map (\<lambda>item. c) response"
    using body by (simp add: smash_def)
  have second: "\<not> truthy (redirect_content self3) \<longrightarrow> body = response"
    using body by (cases "redirect_content self3") (simp_all add: smash_def)
  have next_request: "fst (application2 (app_environ parse_cookie env2) encode_response
                   (self'\<lparr>start_response := Some sr2,
                          request_cookies := PDict (parsed_cookies parse_cookie env2)\<rparr>)) = Inr body2"
    if keep: "\<forall>s. redirect_content (snd (application2 (app_environ parse_cookie env2) encode_response s)) =
                  redirect_content s"
      and c2: "call parse_cookie application2 env2 sr2 self' = (Inr body2, self2)"
    for application2 env2 sr2 body2 self2
  proof -
    let ?s = "self'\<lparr>start_response := Some sr2,
                   request_cookies := PDict (parsed_cookies parse_cookie env2)\<rparr>"
    let ?run2 = "application2 (app_environ parse_cookie env2) encode_response ?s"
    obtain res2 s3 where run2: "?run2 = (res2, s3)" by (cases ?run2)
    have "redirect_content s3 = redirect_content ?s" using keep [rule_format, of ?s] run2 by simp
    then have none: "redirect_content s3 = None" using cleared by simp
    from c2 run2 none show ?thesis
      by (cases res2) (auto simp: call_result smash_def)
  qed
  from run res self' cleared first second next_request show ?thesis by blast
qed

section \<open>The claims\<close>

subsection \<open>C1\<close>

text \<open>
  C1. The docstring of \<open>encode_response\<close> promises that all cookies are packed into a
  single aggregate cookie, but nothing is appended to the pass-through headers: for the
  jar \<open>{a: 1, b: 2}\<close> and a response that sets \<open>a=9\<close>, the response-starter is called
  with the \<open>Content-Type\<close> header alone, and no \<open>Set-Cookie\<close> header at all, while the
  merged jar \<open>{a: 9, b: 2}\<close> stays in the object.
\<close>

theorem encode_response_emits_no_set_cookie:
  "encode_response ''200 OK'' [(''Content-Type'', ''text/html''), (''Set-Cookie'', ''a=9'')] None self_ab =
     (Inr [(''Content-Type'', ''text/html'')],
      self_ab\<lparr>request_cookies := PDict [(''a'', PStr ''9''), (''b'', PStr ''2'')]\<rparr>)"
  by (simp add: encode_response_def self_ab_def init_def cookie_dict_def strip_def is_space_def
      update_all_def dict_update_def new_headers_def echo_headers_def)

subsection \<open>C2\<close>

text \<open>
  C2. The docstring of \<open>__call__\<close> promises that the aggregate cookie is unpacked on
  each request and that expired cookies are filtered out, but \<open>__call__\<close> calls neither
  \<open>decode_zappa_cookie\<close> nor \<open>filter_expired_cookies\<close>: for a request that carries
  the aggregate cookie and a plain cookie \<open>b\<close>, the application is given the mapping
  \<open>{b: 2}\<close> only, the packed entry \<open>a\<close> is lost, and \<open>decoded_zappa\<close> stays \<open>None\<close>.
\<close>

theorem call_never_decodes_zappa:
  "app_environ simple_parse_cookie env_zappa =
     env_zappa\<lparr>HTTP_COOKIE := Some (PDict [(''b'', PStr ''2'')])\<rparr> \<and>
   call simple_parse_cookie hello_app env_zappa echo_headers init =
     (Inr [''Hello, '', ''world''],
      init\<lparr>start_response := Some echo_headers, request_cookies := PDict [(''b'', PStr ''2'')]\<rparr>)"
proof -
  have p: "parsed_cookies simple_parse_cookie env_zappa = [(''b'', PStr ''2'')]"
    by (simp add: parsed_cookies_def dict_pop_def str_dict_def simple_parse_cookie_def
        env_zappa_def eval_defs)
  show ?thesis
    by (simp add: call_result app_environ_def p hello_app_def encode_response_def init_def
        update_all_def smash_def)
qed

subsection \<open>C3\<close>

text \<open>
  C3. Merging the \<open>Set-Cookie\<close> directives of a response into the jar removes no entry:
  whatever \<open>encode_response\<close> returns (also when it raises), every key of the jar is
  still a key afterwards, and every name that no directive names keeps the value it had.
\<close>

theorem merge_keeps_untouched:
  assumes "request_cookies self = PDict d"
    and "encode_response status headers exc self = (r, self')"
  shows "\<exists>d'. request_cookies self' = PDict d' \<and> set (keys d) \<subseteq> set (keys d') \<and>
           (\<forall>n. n \<notin> set (directive_names headers) \<longrightarrow> map_of d' n = map_of d n)"
proof (cases "cookie_dicts headers")
  case (Inl e)
  with assms encode_response_jar [OF assms(1), of status headers exc] show ?thesis by simp
next
  case (Inr kvs)
  have jar: "request_cookies self' = PDict (update_all kvs d)"
    using assms encode_response_jar [OF assms(1), of status headers exc] Inr by simp
  have "map_of (update_all kvs d) n = map_of d n" if "n \<notin> set (directive_names headers)" for n
  proof -
    have "n \<notin> fst ` set (rev kvs)" using that cookie_dicts_names [OF Inr, symmetric] by simp
    then have "map_of (rev kvs) n = None" by (simp add: map_of_eq_None_iff)
    then show ?thesis by (simp add: map_of_update_all)
  qed
  with jar keys_update_all show ?thesis by blast
qed

theorem merge_keeps_untouched_witness:
  "request_cookies self_ab = PDict [(''a'', PStr ''1''), (''b'', PStr ''2'')] \<and>
   ''b'' \<notin> set (directive_names [(''Set-Cookie'', ''a=9'')]) \<and>
   request_cookies (snd (encode_response ''200 OK'' [(''Set-Cookie'', ''a=9'')] None self_ab)) =
     PDict [(''a'', PStr ''9''), (''b'', PStr ''2'')]"
proof -
  let ?hs = "[(''Set-Cookie'', ''a=9'')]"
  let ?res = "encode_response ''200 OK'' ?hs None self_ab"
  have h1: "request_cookies self_ab = PDict [(''a'', PStr ''1''), (''b'', PStr ''2'')]"
    by (simp add: self_ab_def init_def)
  have h2: "?res = (fst ?res, snd ?res)" by simp
  have h3: "''b'' \<notin> set (directive_names ?hs)"
    by (simp add: directive_names_def strip_def is_space_def)
  from merge_keeps_untouched [OF h1 h2] h3 obtain d' where
    "request_cookies (snd ?res) = PDict d'" "map_of d' ''b'' = Some (PStr ''2'')"
    by auto
  moreover have "request_cookies (snd ?res) = PDict [(''a'', PStr ''9''), (''b'', PStr ''2'')]"
    by (simp add: encode_response_def self_ab_def init_def cookie_dict_def strip_def is_space_def
        update_all_def dict_update_def)
  ultimately show ?thesis using h1 h3 by simp
qed

subsection \<open>C4\<close>

text \<open>
  C4, amended by: unless the filter raises. For a jar with distinct keys and an entry in
  which \<open>expires\<close> occurs only at the head of an \<open>expires=\<close> directive: when the
  filter returns without raising and the directive's parsed timestamp is strictly earlier
  than \<open>now\<close>, the entry is removed; when the parsed timestamp is strictly later than
  \<open>now\<close>, the entry is kept, whatever the filter returns; an entry without an
  \<open>expires\<close> directive, or whose directive parses in neither format, is kept. Nothing
  is said of an expiration in the very second of \<open>now\<close>, nor of an entry with
  \<open>expires\<close> elsewhere in it.
\<close>

theorem filter_removes_expired:
  assumes "request_cookies self = PDict d"
    and "distinct (keys d)"
    and "filter_expired_cookies strptime now self = (r, self')"
    and "(name, v) \<in> set d"
    and "expires_only_as_directive name v"
  shows "\<exists>d'. request_cookies self' = PDict d' \<and>
           (\<forall>exp. r = Inr () \<and> spec_expiration strptime v = Some exp \<and> spec_earlier exp now
              \<longrightarrow> name \<notin> set (keys d')) \<and>
           (\<forall>exp. spec_expiration strptime v = Some exp \<and> spec_earlier now exp
              \<longrightarrow> (name, v) \<in> set d') \<and>
           (spec_expires_directive v = None \<longrightarrow> (name, v) \<in> set d') \<and>
           (spec_expiration strptime v = None \<longrightarrow> (name, v) \<in> set d')"
proof -
  from filter_expired_cookies_eq [OF assms(1,2), of strptime now] assms(3)
  have r: "r = (case snd (iter_items strptime d) of None \<Rightarrow> Inr () | Some e \<Rightarrow> Inl e)"
    and jar: "request_cookies self' = PDict (survivors strptime now d)" by auto
  have removed: "name \<notin> set (keys (survivors strptime now d))"
    if "r = Inr ()" "spec_expiration strptime v = Some exp" "spec_earlier exp now" for exp
  proof -
    have "\<forall>kv \<in> set d. \<not> raises strptime kv"
      using that(1) r iter_items_snd [of strptime d] by (auto split: option.splits)
    then have s: "survivors strptime now d = filter (\<lambda>kv. \<not> loop_deletes strptime now kv) d"
      by (rule survivors_no_raise)
    have "cookie_expires strptime name v = Inr (Some exp)"
      using that(2) spec_expiration_yield [OF assms(5)] by simp
    moreover have "exp < now" using that(3) by (simp add: spec_earlier_def timestamp_less)
    ultimately have "loop_deletes strptime now (name, v)" by (simp add: loop_deletes_def)
    then show ?thesis unfolding s using removed_key [OF assms(2,4)] by simp
  qed
  have later: "(name, v) \<in> set (survivors strptime now d)"
    if "spec_expiration strptime v = Some exp" "spec_earlier now exp" for exp
  proof -
    have "cookie_expires strptime name v = Inr (Some exp)"
      using that(1) spec_expiration_yield [OF assms(5)] by simp
    moreover have "\<not> exp < now" using that(2) by (simp add: spec_earlier_def timestamp_greater)
    ultimately have "\<not> loop_deletes strptime now (name, v)" by (simp add: loop_deletes_def)
    then show ?thesis using assms(4) by (simp add: survivors_def)
  qed
  have none: "(name, v) \<in> set (survivors strptime now d)" if "spec_expires_directive v = None"
  proof -
    have "cookie_expires strptime name v = Inr None"
      using that cookie_expires_spec_any [OF assms(5), of strptime] by simp
    then have "\<not> loop_deletes strptime now (name, v)" by (simp add: loop_deletes_def)
    then show ?thesis using assms(4) by (simp add: survivors_def)
  qed
  have unparsed: "(name, v) \<in> set (survivors strptime now d)"
    if "spec_expiration strptime v = None"
  proof -
    have "\<And>exp. cookie_expires strptime name v \<noteq> Inr (Some exp)"
      using that spec_expiration_yield [OF assms(5), of strptime] by simp
    then have "\<not> loop_deletes strptime now (name, v)"
      by (simp add: loop_deletes_def split: sum.splits option.splits)
    then show ?thesis using assms(4) by (simp add: survivors_def)
  qed
  show ?thesis
  proof (intro exI conjI allI impI)
    show "request_cookies self' = PDict (survivors strptime now d)" by (rule jar)
  next
    fix exp
    assume "r = Inr () \<and> spec_expiration strptime v = Some exp \<and> spec_earlier exp now"
    then show "name \<notin> set (keys (survivors strptime now d))" using removed by simp
  next
    fix exp
    assume "spec_expiration strptime v = Some exp \<and> spec_earlier now exp"
    then show "(name, v) \<in> set (survivors strptime now d)" using later by simp
  next
    assume "spec_expires_directive v = None"
    then show "(name, v) \<in> set (survivors strptime now d)" by (rule none)
  next
    assume "spec_expiration strptime v = None"
    then show "(name, v) \<in> set (survivors strptime now d)" by (rule unparsed)
  qed
qed

text \<open>
  The statement of C4 for every jar fails: entry \<open>b\<close> carries an \<open>expires\<close> directive
  whose parsed timestamp, in 2020, is strictly earlier than \<open>now\<close>, in 2021; but entry
  \<open>a\<close> before it holds a date that does not parse, the filter raises there, and \<open>b\<close>
  is still in the jar.
\<close>

theorem expired_entry_survives_counterexample:
  "spec_expiration strptime_stub (PStr ''2; expires=Wed, 01-Jan-2020 00:00:00 GMT'') =
     Some (2020, 1, 1, 0, 0, 0, 2, 1, - 1) \<and>
   spec_earlier (2020, 1, 1, 0, 0, 0, 2, 1, - 1) now_2021 \<and>
   filter_expired_cookies strptime_stub now_2021 self_expiring = (Inl ValueError, self_expiring)"
  by (simp add: spec_defs self_expiring_def now_2021_def model_defs)

theorem filter_removes_expired_witness:
  "request_cookies self_fresh = PDict jar_fresh \<and> distinct (keys jar_fresh) \<and>
   (''b'', PStr ''2; expires=Wed, 01-Jan-2020 00:00:00 GMT'') \<in> set jar_fresh \<and>
   expires_only_as_directive ''b'' (PStr ''2; expires=Wed, 01-Jan-2020 00:00:00 GMT'') \<and>
   spec_expiration strptime_stub (PStr ''2; expires=Wed, 01-Jan-2020 00:00:00 GMT'') =
     Some (2020, 1, 1, 0, 0, 0, 2, 1, - 1) \<and>
   spec_earlier (2020, 1, 1, 0, 0, 0, 2, 1, - 1) now_2021 \<and>
   fst (filter_expired_cookies strptime_stub now_2021 self_fresh) = Inr () \<and>
   (\<exists>d'. request_cookies (snd (filter_expired_cookies strptime_stub now_2021 self_fresh)) = PDict d' \<and>
         ''b'' \<notin> set (keys d')) \<and>
   spec_earlier now_2019 (2020, 1, 1, 0, 0, 0, 2, 1, - 1) \<and>
   (\<exists>d'. request_cookies (snd (filter_expired_cookies strptime_stub now_2019 self_fresh)) = PDict d' \<and>
         (''b'', PStr ''2; expires=Wed, 01-Jan-2020 00:00:00 GMT'') \<in> set d')"
proof -
  let ?v = "PStr ''2; expires=Wed, 01-Jan-2020 00:00:00 GMT''"
  let ?t = "(2020, 1, 1, 0, 0, 0, 2, 1, - 1) :: struct_time"
  let ?r21 = "filter_expired_cookies strptime_stub now_2021 self_fresh"
  let ?r19 = "filter_expired_cookies strptime_stub now_2019 self_fresh"
  have h1: "request_cookies self_fresh = PDict jar_fresh" by (simp add: self_fresh_def init_def)
  have h2: "distinct (keys jar_fresh)" by (simp add: jar_fresh_def keys_def)
  have h3: "?r21 = (fst ?r21, snd ?r21)" "?r19 = (fst ?r19, snd ?r19)" by simp_all
  have h4: "(''b'', ?v) \<in> set jar_fresh" by (simp add: jar_fresh_def)
  have h5: "expires_only_as_directive ''b'' ?v" by (simp add: spec_defs eval_defs)
  have e: "spec_expiration strptime_stub ?v = Some ?t" by (simp add: spec_defs eval_defs)
  have l21: "spec_earlier ?t now_2021" by (simp add: spec_defs now_2021_def)
  have l19: "spec_earlier now_2019 ?t" by (simp add: spec_defs now_2019_def)
  have ok: "fst ?r21 = Inr ()"
    by (simp add: self_fresh_def jar_fresh_def now_2021_def model_defs)
  from filter_removes_expired [OF h1 h2 h3(1) h4 h5] ok e l21
  have a: "\<exists>d'. request_cookies (snd ?r21) = PDict d' \<and> ''b'' \<notin> set (keys d')" by blast
  from filter_removes_expired [OF h1 h2 h3(2) h4 h5] e l19
  have b: "\<exists>d'. request_cookies (snd ?r19) = PDict d' \<and> (''b'', ?v) \<in> set d'" by blast
  from h1 h2 h4 h5 e l21 l19 ok a b show ?thesis by blast
qed

text \<open>
  Two inputs that the statement above leaves out. An entry that expires in the very second
  of \<open>now\<close> is removed, since \<open>time.strptime\<close> gives the dst flag \<open>-1\<close> and
  \<open>time.gmtime\<close> gives \<open>0\<close>, and the tuples are compared to the last field. An entry
  without any directive whose name holds \<open>expires\<close> and whose value is a date is removed,
  since line 138 tests every piece of \<open>name=value\<close> for the substring.
\<close>

lemma boundary_entry_removed:
  "spec_expiration strptime_stub (PStr ''2; expires=Wed, 01-Jan-2020 00:00:00 GMT'') =
     Some (2020, 1, 1, 0, 0, 0, 2, 1, - 1) \<and>
   timestamp (2020, 1, 1, 0, 0, 0, 2, 1, - 1) = timestamp now_2020 \<and>
   filter_expired_cookies strptime_stub now_2020 self_boundary =
     (Inr (), self_boundary\<lparr>request_cookies := PDict []\<rparr>)"
  by (simp add: spec_defs self_boundary_def now_2020_def model_defs)

lemma named_entry_removed:
  "spec_expires_directive (PStr ''Wed, 01-Jan-2020 00:00:00 GMT; path=/'') = None \<and>
   filter_expired_cookies strptime_stub now_2021 self_named =
     (Inr (), self_named\<lparr>request_cookies := PDict []\<rparr>)"
  by (simp add: spec_defs self_named_def now_2021_def model_defs)

subsection \<open>C5\<close>

text \<open>
  C5, as the code has it. Let \<open>kvp\<close> be the first piece of \<open>name=value\<close> between
  semicolons that contains \<open>expires\<close>, and \<open>text\<close> what follows its first \<open>=\<close>. The
  four-digit-year format is tried first; when it fails the two-digit-year format is tried;
  when both fail the entry raises ValueError, which nothing catches. When no entry before
  it in the jar raises, \<open>iter_cookies_expires\<close> ends with that ValueError and
  \<open>filter_expired_cookies\<close> raises it. Wherever the entry stands in the jar, the filter
  raises and the entry is still in the jar.
\<close>

theorem expires_two_formats:
  assumes "split CHR '';'' (name @ ''='' @ v) = pre @ kvp # post"
    and "count CHR ''='' (name @ ''='' @ v) \<noteq> 1"
    and "list_all (\<lambda>p. \<not> contains (lower (strip p)) ''expires'') pre"
    and "contains (lower (strip kvp)) ''expires''"
    and "expires_text (strip kvp) = Inr text"
  shows "cookie_expires strptime name (PStr v) =
           (case strptime text format_Y of
              Some exp \<Rightarrow> Inr (Some exp)
            | None \<Rightarrow> (case strptime text format_y of
                         Some exp \<Rightarrow> Inr (Some exp)
                       | None \<Rightarrow> Inl ValueError)) \<and>
         (strptime text format_Y = None \<and> strptime text format_y = None \<and>
          request_cookies self = PDict (before @ (name, PStr v) # after) \<and>
          distinct (keys (before @ (name, PStr v) # after)) \<and>
          list_all (\<lambda>kv. \<not> raises strptime kv) before \<longrightarrow>
            (\<exists>ys. iter_cookies_expires strptime self = Inr (ys, Some ValueError)) \<and>
            (\<exists>d'. filter_expired_cookies strptime now self =
                     (Inl ValueError, self\<lparr>request_cookies := PDict d'\<rparr>) \<and>
                   (name, PStr v) \<in> set d')) \<and>
         (strptime text format_Y = None \<and> strptime text format_y = None \<and>
          request_cookies self = PDict d \<and> distinct (keys d) \<and> (name, PStr v) \<in> set d \<longrightarrow>
            (\<exists>e d'. filter_expired_cookies strptime now self =
                      (Inl e, self\<lparr>request_cookies := PDict d'\<rparr>) \<and> (name, PStr v) \<in> set d'))"
proof -
  have ce: "cookie_expires strptime name (PStr v) =
           (case strptime text format_Y of
              Some exp \<Rightarrow> Inr (Some exp)
            | None \<Rightarrow> (case strptime text format_y of
                         Some exp \<Rightarrow> Inr (Some exp)
                       | None \<Rightarrow> Inl ValueError))"
    using assms(1,2,5) scan_kvps_first [OF assms(3,4), of strptime post]
    by (simp add: parse_expires_def split: option.splits)
  have first: "(\<exists>ys. iter_cookies_expires strptime self = Inr (ys, Some ValueError)) \<and>
            (\<exists>d'. filter_expired_cookies strptime now self =
                     (Inl ValueError, self\<lparr>request_cookies := PDict d'\<rparr>) \<and>
                   (name, PStr v) \<in> set d')"
    if none: "strptime text format_Y = None" "strptime text format_y = None"
      and jar: "request_cookies self = PDict (before @ (name, PStr v) # after)"
        "distinct (keys (before @ (name, PStr v) # after))"
      and before: "list_all (\<lambda>kv. \<not> raises strptime kv) before"
  proof -
    let ?d = "before @ (name, PStr v) # after"
    have e: "cookie_expires strptime (fst (name, PStr v)) (snd (name, PStr v)) = Inl ValueError"
      using ce none by simp
    have err: "snd (iter_items strptime ?d) = Some ValueError"
      by (rule iter_items_raise_at [OF before e])
    have "iter_cookies_expires strptime self =
            Inr (fst (iter_items strptime ?d), Some ValueError)"
      using jar(1) err by (simp add: iter_cookies_expires_def prod_eq_iff)
    moreover have "filter_expired_cookies strptime now self =
                 (Inl ValueError, self\<lparr>request_cookies := PDict (survivors strptime now ?d)\<rparr>)"
      using filter_expired_cookies_eq [OF jar, of strptime now] err by simp
    moreover have "(name, PStr v) \<in> set (survivors strptime now ?d)"
      by (rule raises_survives) (simp_all add: raises_def e [simplified])
    ultimately show ?thesis by blast
  qed
  have second: "\<exists>e d'. filter_expired_cookies strptime now self =
                      (Inl e, self\<lparr>request_cookies := PDict d'\<rparr>) \<and> (name, PStr v) \<in> set d'"
    if none: "strptime text format_Y = None" "strptime text format_y = None"
      and jar: "request_cookies self = PDict d" "distinct (keys d)" and mem: "(name, PStr v) \<in> set d"
  proof -
    have r: "raises strptime (name, PStr v)" using ce none by (simp add: raises_def)
    then have "snd (iter_items strptime d) \<noteq> None"
      using iter_items_snd [of strptime d] mem by blast
    then obtain e where "snd (iter_items strptime d) = Some e" by auto
    then have "filter_expired_cookies strptime now self =
                 (Inl e, self\<lparr>request_cookies := PDict (survivors strptime now d)\<rparr>)"
      using filter_expired_cookies_eq [OF jar, of strptime now] by simp
    with raises_survives [OF mem r] show ?thesis by blast
  qed
  from ce first second show ?thesis by blast
qed

text \<open>
  The statement of C5 that no error comes out of the filter fails: the date \<open>never\<close>
  parses in neither format, and the filter raises ValueError.
\<close>

theorem unparseable_expires_counterexample:
  "filter_expired_cookies strptime_stub now_2021 self_unparseable =
     (Inl ValueError, self_unparseable)"
  by (simp add: self_unparseable_def model_defs)

theorem expires_two_formats_witness:
  "cookie_expires strptime_stub ''a'' (PStr ''1; Expires=Wed, 01-Jan-20 00:00:00 GMT'') =
     Inr (Some (2020, 1, 1, 0, 0, 0, 2, 1, - 1)) \<and>
   (\<exists>ys. iter_cookies_expires strptime_stub self_unparseable = Inr (ys, Some ValueError)) \<and>
   (\<exists>d'. filter_expired_cookies strptime_stub now_2021 self_unparseable =
             (Inl ValueError, self_unparseable\<lparr>request_cookies := PDict d'\<rparr>) \<and>
           (''a'', PStr ''1; expires=never'') \<in> set d')"
proof -
  have a1: "split CHR '';'' (''a'' @ ''='' @ ''1; Expires=Wed, 01-Jan-20 00:00:00 GMT'') =
              [''a=1''] @ '' Expires=Wed, 01-Jan-20 00:00:00 GMT'' # []" by simp
  have a2: "count CHR ''='' (''a'' @ ''='' @ ''1; Expires=Wed, 01-Jan-20 00:00:00 GMT'') \<noteq> 1"
    by (simp add: count_def)
  have a3: "list_all (\<lambda>p. \<not> contains (lower (strip p)) ''expires'') [''a=1'']"
    by (simp add: eval_defs)
  have a4: "contains (lower (strip '' Expires=Wed, 01-Jan-20 00:00:00 GMT'')) ''expires''"
    by (simp add: eval_defs)
  have a5: "expires_text (strip '' Expires=Wed, 01-Jan-20 00:00:00 GMT'') =
              Inr ''Wed, 01-Jan-20 00:00:00 GMT''"
    by (simp add: eval_defs)
  have first: "cookie_expires strptime_stub ''a'' (PStr ''1; Expires=Wed, 01-Jan-20 00:00:00 GMT'') =
     Inr (Some (2020, 1, 1, 0, 0, 0, 2, 1, - 1))"
    using expires_two_formats [OF a1 a2 a3 a4 a5, of strptime_stub] by (simp add: strptime_stub_def format_Y_def format_y_def)
  have b1: "split CHR '';'' (''a'' @ ''='' @ ''1; expires=never'') = [''a=1''] @ '' expires=never'' # []"
    by simp
  have b2: "count CHR ''='' (''a'' @ ''='' @ ''1; expires=never'') \<noteq> 1" by (simp add: count_def)
  have b4: "contains (lower (strip '' expires=never'')) ''expires''" by (simp add: eval_defs)
  have b5: "expires_text (strip '' expires=never'') = Inr ''never''" by (simp add: eval_defs)
  have none: "strptime_stub ''never'' format_Y = None" "strptime_stub ''never'' format_y = None"
    by (simp_all add: strptime_stub_def)
  have jar: "request_cookies self_unparseable = PDict ([] @ (''a'', PStr ''1; expires=never'') # [])"
    "distinct (keys ([] @ (''a'', PStr ''1; expires=never'') # []))"
    "list_all (\<lambda>kv. \<not> raises strptime_stub kv) []"
    by (simp_all add: self_unparseable_def init_def keys_def)
  have second: "(\<exists>ys. iter_cookies_expires strptime_stub self_unparseable = Inr (ys, Some ValueError)) \<and>
     (\<exists>d'. filter_expired_cookies strptime_stub now_2021 self_unparseable =
             (Inl ValueError, self_unparseable\<lparr>request_cookies := PDict d'\<rparr>) \<and>
           (''a'', PStr ''1; expires=never'') \<in> set d')"
    using expires_two_formats [OF b1 b2 a3 b4 b5, of strptime_stub self_unparseable "[]" "[]" now_2021] none jar
    by blast
  from first second show ?thesis by simp
qed

subsection \<open>C6\<close>

text \<open>
  C6, as the code has it. \<open>decode_zappa_cookie\<close> has no handler: when the base-58
  decoder raises, or when it succeeds and the JSON reader raises, the same error comes
  out of \<open>decode_zappa_cookie\<close>, and the jar is the one from before, not an empty one.
\<close>

theorem decode_error_propagates:
  assumes "b58decode p = Inl e \<or> (\<exists>s. b58decode p = Inr s \<and> json_loads s = Inl e)"
  shows "fst (decode_zappa_cookie b58decode json_loads p self) = Inl e \<and>
         request_cookies (snd (decode_zappa_cookie b58decode json_loads p self)) = request_cookies self"
  using assms by (auto simp: decode_zappa_cookie_def Let_def)

text \<open>
  The statement of C6 fails: the payload \<open>38\<close> is the base-58 text of \<open>{\<close>, which is no
  JSON; the ValueError reaches the caller and the jar \<open>{a: 1, b: 2}\<close> is kept.
\<close>

theorem decode_error_counterexample:
  "decode_zappa_cookie b58decode_stub json_loads_stub ''38'' self_ab =
     (Inl ValueError, self_ab\<lparr>decoded_zappa := Some ''{''\<rparr>) \<and>
   request_cookies self_ab = PDict [(''a'', PStr ''1''), (''b'', PStr ''2'')]"
  by (simp add: decode_zappa_cookie_def b58decode_stub_def json_loads_stub_def self_ab_def init_def)

theorem decode_error_propagates_witness:
  "b58decode_stub ''0'' = Inl ValueError \<and>
   fst (decode_zappa_cookie b58decode_stub json_loads_stub ''0'' self_ab) = Inl ValueError \<and>
   request_cookies (snd (decode_zappa_cookie b58decode_stub json_loads_stub ''0'' self_ab)) =
     PDict [(''a'', PStr ''1''), (''b'', PStr ''2'')]"
proof -
  have h: "b58decode_stub ''0'' = Inl ValueError" by (simp add: b58decode_stub_def)
  then have "b58decode_stub ''0'' = Inl ValueError \<or>
             (\<exists>s. b58decode_stub ''0'' = Inr s \<and> json_loads_stub s = Inl ValueError)" by simp
  from decode_error_propagates [where b58decode = b58decode_stub and json_loads = json_loads_stub and p = "''0''"
      and e = ValueError and self = self_ab, OF this] h
  show ?thesis by (simp add: self_ab_def init_def)
qed

subsection \<open>C7\<close>

text \<open>
  C7. When several \<open>Set-Cookie\<close> headers of one response name the same cookie, the jar
  holds the value of the last of them: for a header list in which every directive holds an
  \<open>=\<close>, a directive for \<open>n\<close> with value \<open>v\<close> that no later directive names again
  leaves \<open>n\<close> bound to \<open>v\<close>.
\<close>

theorem merge_last_wins:
  assumes "request_cookies self = PDict d"
    and "headers = hs1 @ (''Set-Cookie'', directive) # hs2"
    and "cookie_dict directive = Inr (n, v)"
    and "n \<notin> set (directive_names hs2)"
    and "cookie_dicts headers = Inr kvs"
    and "encode_response status headers exc self = (r, self')"
  shows "\<exists>d'. request_cookies self' = PDict d' \<and> map_of d' n = Some v"
proof -
  from assms(2,3,5) obtain k1 k2 where k1: "cookie_dicts hs1 = Inr k1"
    and k2: "cookie_dicts hs2 = Inr k2" and kvs: "kvs = k1 @ (n, v) # k2"
    by (auto simp: cookie_dicts_append split: sum.splits)
  have "n \<notin> fst ` set (rev k2)"
    using assms(4) cookie_dicts_names [OF k2, symmetric] by simp
  then have "map_of (rev k2) n = None" by (simp add: map_of_eq_None_iff)
  then have "map_of (rev kvs) n = Some v" by (simp add: kvs map_add_def)
  then have "map_of (update_all kvs d) n = Some v" by (simp add: map_of_update_all)
  moreover have "request_cookies self' = PDict (update_all kvs d)"
    using assms(5,6) encode_response_jar [OF assms(1), of status headers exc] by simp
  ultimately show ?thesis by simp
qed

theorem merge_last_wins_witness:
  "request_cookies self_ab = PDict [(''a'', PStr ''1''), (''b'', PStr ''2'')] \<and>
   cookie_dict ''x=2'' = Inr (''x'', PStr ''2'') \<and>
   ''x'' \<notin> set (directive_names [(''Content-Type'', ''text/html'')]) \<and>
   cookie_dicts [(''Set-Cookie'', ''x=1''), (''Set-Cookie'', ''x=2''), (''Content-Type'', ''text/html'')] =
     Inr [(''x'', PStr ''1''), (''x'', PStr ''2'')] \<and>
   (\<exists>d'. request_cookies (snd (encode_response ''200 OK''
       [(''Set-Cookie'', ''x=1''), (''Set-Cookie'', ''x=2''), (''Content-Type'', ''text/html'')] None self_ab)) = PDict d' \<and>
      map_of d' ''x'' = Some (PStr ''2''))"
proof -
  let ?hs = "[(''Set-Cookie'', ''x=1''), (''Set-Cookie'', ''x=2''), (''Content-Type'', ''text/html'')]"
  let ?res = "encode_response ''200 OK'' ?hs None self_ab"
  have h1: "request_cookies self_ab = PDict [(''a'', PStr ''1''), (''b'', PStr ''2'')]"
    by (simp add: self_ab_def init_def)
  have h2: "?hs = [(''Set-Cookie'', ''x=1'')] @ (''Set-Cookie'', ''x=2'') # [(''Content-Type'', ''text/html'')]"
    by simp
  have h3: "cookie_dict ''x=2'' = Inr (''x'', PStr ''2'')"
    by (simp add: cookie_dict_def strip_def is_space_def)
  have h4: "''x'' \<notin> set (directive_names [(''Content-Type'', ''text/html'')])"
    by (simp add: directive_names_def)
  have h5: "cookie_dicts ?hs = Inr [(''x'', PStr ''1''), (''x'', PStr ''2'')]"
    by (simp add: cookie_dict_def strip_def is_space_def)
  have h6: "?res = (fst ?res, snd ?res)" by simp
  show ?thesis using merge_last_wins [OF h1 h2 h3 h4 h5 h6] h1 h3 h4 h5 by simp
qed

subsection \<open>C8\<close>

text \<open>
  C8. The key \<open>zappa\<close> is not in the cookie mapping the application is given: the
  mapping is the parsed one without that key (every other cookie stays), it is what
  \<open>HTTP_COOKIE\<close> holds in the environment of the application, and \<open>__call__\<close> applies
  the application to that environment and to no other.
\<close>

theorem zappa_hidden_from_application:
  "''zappa'' \<notin> set (keys (parsed_cookies parse_cookie env)) \<and>
   parsed_cookies parse_cookie env =
     filter (\<lambda>kv. fst kv \<noteq> ''zappa'') (str_dict (parse_cookie env)) \<and>
   HTTP_COOKIE (app_environ parse_cookie env) = Some (PDict (parsed_cookies parse_cookie env)) \<and>
   call parse_cookie application env sr self =
     call parse_cookie (\<lambda>e. application (app_environ parse_cookie env)) env sr self"
proof -
  have "''zappa'' \<notin> set (keys (parsed_cookies parse_cookie env))"
    unfolding parsed_cookies_filter keys_def by auto
  moreover have "HTTP_COOKIE (app_environ parse_cookie env) =
      Some (PDict (parsed_cookies parse_cookie env))"
    by (simp add: app_environ_def)
  moreover have "call parse_cookie application env sr self =
     call parse_cookie (\<lambda>e. application (app_environ parse_cookie env)) env sr self"
    by (simp add: call_def)
  ultimately show ?thesis using parsed_cookies_filter by blast
qed

subsection \<open>C9\<close>

text \<open>
  C9. The comment at line 70 says that nothing is to be left from a previous request,
  but the slot is cleared only on the path that returns a response: \<open>__call__\<close> has no
  \<open>try\<close>. A first request during which redirect content is staged and whose
  application then raises leaves the content in the slot, and the next request on the
  same object, with nothing staged, gets that content in place of each chunk of its body.
\<close>

theorem redirect_content_carries_over:
  "call simple_parse_cookie staging_app_raises env_zappa echo_headers init =
     (Inl ValueError,
      init\<lparr>start_response := Some echo_headers, request_cookies := PDict [(''b'', PStr ''2'')],
           redirect_content := Some ''<html>''\<rparr>) \<and>
   call simple_parse_cookie hello_app env_zappa echo_headers
     (init\<lparr>start_response := Some echo_headers, request_cookies := PDict [(''b'', PStr ''2'')],
           redirect_content := Some ''<html>''\<rparr>) =
     (Inr [''<html>'', ''<html>''],
      init\<lparr>start_response := Some echo_headers, request_cookies := PDict [(''b'', PStr ''2'')]\<rparr>)"
proof -
  have p: "parsed_cookies simple_parse_cookie env_zappa = [(''b'', PStr ''2'')]"
    by (simp add: parsed_cookies_def dict_pop_def str_dict_def simple_parse_cookie_def
        env_zappa_def eval_defs)
  show ?thesis
    by (simp add: call_result app_environ_def p hello_app_def staging_app_raises_def
        encode_response_def init_def update_all_def smash_def)
qed

subsection \<open>C10\<close>

text \<open>
  C10. An entry whose value is not a string is never removed by the expiration filter,
  whatever the value holds and whatever the filter returns, and it adds nothing to the
  string of \<open>cookie_environ_string\<close>, before or after the filter: the string is the one
  of the jar without the entry. \<open>cookie_environ_string\<close> only reads the object.
\<close>

theorem non_string_entry_kept:
  assumes "request_cookies self = PDict d"
    and "distinct (keys d)"
    and "(n, v) \<in> set d"
    and "\<not> is_basestring v"
    and "filter_expired_cookies strptime now self = (r, self')"
  shows "(\<exists>d'. request_cookies self' = PDict d' \<and> (n, v) \<in> set d' \<and>
            cookie_environ_string self' =
              cookie_environ_string (self'\<lparr>request_cookies := PDict (removeAll (n, v) d')\<rparr>)) \<and>
         cookie_environ_string self =
           cookie_environ_string (self\<lparr>request_cookies := PDict (removeAll (n, v) d)\<rparr>)"
proof -
  from filter_expired_cookies_eq [OF assms(1,2), of strptime now] assms(5)
  have jar: "request_cookies self' = PDict (survivors strptime now d)" by auto
  have "(n, v) \<in> set (survivors strptime now d)"
    using assms(3) not_basestring_not_deleted [OF assms(4)] by (simp add: survivors_def)
  then show ?thesis
    using jar assms(1) str_list_removeAll [OF assms(4)]
    by (simp add: cookie_environ_string_def)
qed

theorem non_string_entry_kept_witness:
  "request_cookies self_fresh = PDict jar_fresh \<and> distinct (keys jar_fresh) \<and>
   (''c'', PList [PStr ''3; expires=Wed, 01-Jan-2020 00:00:00 GMT'']) \<in> set jar_fresh \<and>
   \<not> is_basestring (PList [PStr ''3; expires=Wed, 01-Jan-2020 00:00:00 GMT'']) \<and>
   (\<exists>d'. request_cookies (snd (filter_expired_cookies strptime_stub now_2021 self_fresh)) = PDict d' \<and>
         (''c'', PList [PStr ''3; expires=Wed, 01-Jan-2020 00:00:00 GMT'']) \<in> set d') \<and>
   cookie_environ_string self_fresh =
     Inr ''b=2; expires=Wed, 01-Jan-2020 00:00:00 GMT;s=plain''"
proof -
  let ?c = "PList [PStr ''3; expires=Wed, 01-Jan-2020 00:00:00 GMT'']"
  let ?res = "filter_expired_cookies strptime_stub now_2021 self_fresh"
  have h1: "request_cookies self_fresh = PDict jar_fresh" by (simp add: self_fresh_def init_def)
  have h2: "distinct (keys jar_fresh)" by (simp add: jar_fresh_def keys_def)
  have h3: "(''c'', ?c) \<in> set jar_fresh" by (simp add: jar_fresh_def)
  have h4: "\<not> is_basestring ?c" by simp
  have h5: "?res = (fst ?res, snd ?res)" by simp
  have s: "cookie_environ_string (self_fresh\<lparr>request_cookies := PDict (removeAll (''c'', ?c) jar_fresh)\<rparr>) =
             Inr ''b=2; expires=Wed, 01-Jan-2020 00:00:00 GMT;s=plain''"
    by (simp add: cookie_environ_string_def jar_fresh_def)
  from non_string_entry_kept [OF h1 h2 h3 h4 h5] s h1 h2 h3 h4 show ?thesis by auto
qed

end
